theory Spec2Isabelle
  imports Complex_Main
begin

section \<open>Weather data ingestion and yearly statistics\<close>

text \<open>
  A shallow embedding of \<^verbatim>\<open>ingest_data.py\<close>, \<^verbatim>\<open>weather_statistics.py\<close>, \<^verbatim>\<open>models.py\<close> and
  \<^verbatim>\<open>connect_database.py\<close>. The Python code drives three libraries (pandas, SQLAlchemy and
  a PostgreSQL server); what the code relies on of each is written out as a definition of
  its own, next to the place of the source that calls it.
\<close>

subsection \<open>Exceptions\<close>

text \<open>
  The exceptions that reach the code: \<^verbatim>\<open>TypeError\<close> from pandas arithmetic on a text
  column, and the SQLAlchemy exceptions \<^verbatim>\<open>IntegrityError\<close> (the only one the code catches by
  name), \<^verbatim>\<open>DataError\<close> and \<^verbatim>\<open>OperationalError\<close> (a lost connection).
\<close>

datatype py_exception = TypeError | IntegrityError | DataError | OperationalError

subsection \<open>Source files\<close>

text \<open>
  One line of a source file is four tab-separated fields. \<^verbatim>\<open>pd.read_csv\<close> keeps the date
  field as it is written and reads a numeric field as an integer where it is one; any
  other text in a numeric field stays text (fractions and blank fields, which the file
  format does not have, are not modelled). A file is its path and its lines.
\<close>

datatype cell = IntCell int | StrCell string

record raw_line =
  c_date :: string
  c_max_temp :: cell
  c_min_temp :: cell
  c_precipitation :: cell

type_synonym source_file = "string \<times> raw_line list"

subsection \<open>Calendar dates\<close>

record calendar_date =
  d_year :: nat
  d_month :: nat
  d_day :: nat

definition is_digit :: "char \<Rightarrow> bool" where
  "is_digit c = (c \<in> set ''0123456789'')"

definition digit_val :: "char \<Rightarrow> nat" where
  "digit_val c = of_char c - 48"

definition int_of_digits :: "string \<Rightarrow> nat" where
  "int_of_digits s = foldl (\<lambda>n c. 10 * n + digit_val c) 0 s"

definition is_leap :: "nat \<Rightarrow> bool" where
  "is_leap y = (y mod 4 = 0 \<and> (y mod 100 \<noteq> 0 \<or> y mod 400 = 0))"

definition days_in_month :: "nat \<Rightarrow> nat \<Rightarrow> nat" where
  "days_in_month y m =
     (if m = 2 then (if is_leap y then 29 else 28)
      else if m = 4 \<or> m = 6 \<or> m = 9 \<or> m = 11 then 30 else 31)"

text \<open>
  \<^verbatim>\<open>pd.to_datetime(data['date'], format='%Y%m%d', errors='coerce')\<close>, one value at a time:
  four digits of year, two of month, two of day, and a date of the calendar; anything else
  is coerced to \<^verbatim>\<open>NaT\<close>, here \<open>None\<close>. The range of years a pandas timestamp can hold is
  not modelled.
\<close>

definition to_datetime :: "string \<Rightarrow> calendar_date option" where
  "to_datetime s =
     (if length s = 8 \<and> list_all is_digit s then
        (let y = int_of_digits (take 4 s);
             m = int_of_digits (take 2 (drop 4 s));
             d = int_of_digits (drop 6 s)
         in if 1 \<le> y \<and> 1 \<le> m \<and> m \<le> 12 \<and> 1 \<le> d \<and> d \<le> days_in_month y m
            then Some \<lparr>d_year = y, d_month = m, d_day = d\<rparr>
            else None)
      else None)"

subsection \<open>The ORM classes of models.py\<close>

text \<open>
  A \<^verbatim>\<open>WeatherData\<close> object as \<^verbatim>\<open>ingest_data\<close> builds it from a row of the data frame: every
  column but the station may be missing on the Python side. The surrogate key \<^verbatim>\<open>id\<close> is
  assigned by the store and read by neither script; it is left out, and a table is the list
  of its rows in insertion order.
\<close>

record weather_data =
  station_id :: string
  date :: "calendar_date option"
  max_temp :: "real option"
  min_temp :: "real option"
  precipitation :: "real option"

text \<open>
  A row of table \<^verbatim>\<open>weather_data\<close>: \<^verbatim>\<open>date\<close> and \<^verbatim>\<open>station_id\<close> are \<^verbatim>\<open>nullable=False\<close>, the
  three measurements are nullable.
\<close>

record weather_data_row =
  r_station_id :: string
  r_date :: calendar_date
  r_max_temp :: "real option"
  r_min_temp :: "real option"
  r_precipitation :: "real option"

text \<open>A \<^verbatim>\<open>WeatherStatistics\<close> object, and a row of table \<^verbatim>\<open>weather_statistics\<close>.\<close>

record weather_statistics =
  ws_year :: nat
  ws_station_id :: string
  avg_max_temp :: "real option"
  avg_min_temp :: "real option"
  total_precipitation :: "real option"

subsection \<open>parse\_weather\_data\<close>

text \<open>
  \<^verbatim>\<open>data.replace(-9999, None, inplace=True)\<close> on one integer value: the explicit
  \<^verbatim>\<open>None\<close> is the replacement, as the comment in the source says and as pandas has it
  from version 1.4 on.
\<close>

definition replace_sentinel :: "int \<Rightarrow> int option" where
  "replace_sentinel v = (if v = - 9999 then None else Some v)"

text \<open>
  \<^verbatim>\<open>np.where(pd.notnull(col), col / 10.0, None)\<close> on one value. Python's float quotient is
  modelled by the real quotient.
\<close>

definition scale :: "int option \<Rightarrow> real option" where
  "scale x = (case x of None \<Rightarrow> None | Some v \<Rightarrow> Some (real_of_int v / 10))"

text \<open>
  The conversion of one numeric column. A column that holds text is a column of strings to
  pandas: the sentinel is not replaced in it and the division raises \<^verbatim>\<open>TypeError\<close>.
\<close>

fun convert_column :: "cell list \<Rightarrow> py_exception + real option list" where
  "convert_column [] = Inr []"
| "convert_column (IntCell v # cs) =
     (case convert_column cs of
        Inl e \<Rightarrow> Inl e
      | Inr vs \<Rightarrow> Inr (scale (replace_sentinel v) # vs))"
| "convert_column (StrCell t # cs) = Inl TypeError"

text \<open>\<^verbatim>\<open>os.path.basename(file_path).split('.')[0]\<close>\<close>

definition basename :: "string \<Rightarrow> string" where
  "basename p = rev (takeWhile (\<lambda>c. c \<noteq> CHR ''/'') (rev p))"

definition station_of :: "string \<Rightarrow> string" where
  "station_of file_path = takeWhile (\<lambda>c. c \<noteq> CHR ''.'') (basename file_path)"

definition make_row ::
  "string \<Rightarrow> raw_line \<times> real option \<times> real option \<times> real option \<Rightarrow> weather_data" where
  "make_row sid x =
     (case x of (l, mx, mn, pr) \<Rightarrow>
        \<lparr>station_id = sid, date = to_datetime (c_date l),
         max_temp = mx, min_temp = mn, precipitation = pr\<rparr>)"

definition parse_weather_data :: "source_file \<Rightarrow> py_exception + weather_data list" where
  "parse_weather_data f =
     (case f of (file_path, data) \<Rightarrow>
        (case convert_column (map c_max_temp data) of
           Inl e \<Rightarrow> Inl e
         | Inr maxs \<Rightarrow>
        (case convert_column (map c_min_temp data) of
           Inl e \<Rightarrow> Inl e
         | Inr mins \<Rightarrow>
        (case convert_column (map c_precipitation data) of
           Inl e \<Rightarrow> Inl e
         | Inr precs \<Rightarrow>
             Inr (map (make_row (station_of file_path))
                    (zip data (zip maxs (zip mins precs))))))))"

subsection \<open>The store behind connect\_database.py\<close>

text \<open>
  The engine stands for the PostgreSQL server the scripts talk to: the committed rows of
  the two tables, and two facts of the environment that the scripts cannot choose.
  \<^item> \<open>nat_exc\<close> is the exception the store raises for the insert of an object whose
    \<^verbatim>\<open>date\<close> is \<^verbatim>\<open>NaT\<close>. The column is \<^verbatim>\<open>nullable=False\<close>, so the row is refused either
    way: as a violated constraint (\<open>IntegrityError\<close>) where the driver sends
    \<^verbatim>\<open>NULL\<close>, as a malformed value (\<open>DataError\<close>) where it sends the text \<^verbatim>\<open>NaT\<close>.
  \<^item> \<open>outages\<close> says, for each statement still to be sent, whether the connection is
    down when it is sent; past the end of the list the connection is up.
\<close>

record engine =
  weather_data_tbl :: "weather_data_row list"
  weather_statistics_tbl :: "weather_statistics list"
  nat_exc :: py_exception
  outages :: "bool list"

datatype orm_object = WD weather_data | WS weather_statistics

text \<open>A session: the engine it is bound to and the objects added but not yet flushed.\<close>

record session =
  bind :: engine
  new :: "orm_object list"

definition get_session :: "engine \<Rightarrow> session" where
  "get_session e = \<lparr>bind = e, new = []\<rparr>"

text \<open>Sending one statement: it reaches the server unless the connection is down.\<close>

definition execute :: "engine \<Rightarrow> bool \<times> engine" where
  "execute e =
     (case outages e of
        [] \<Rightarrow> (True, e)
      | down # rest \<Rightarrow> (\<not> down, e\<lparr>outages := rest\<rparr>))"

text \<open>\<^verbatim>\<open>UniqueConstraint('station_id', 'date', name='station_date_uc')\<close>: is it violated?\<close>

definition station_date_uc :: "weather_data_row list \<Rightarrow> string \<Rightarrow> calendar_date \<Rightarrow> bool" where
  "station_date_uc tbl sid d = list_ex (\<lambda>x. r_station_id x = sid \<and> r_date x = d) tbl"

text \<open>
  The \<^verbatim>\<open>INSERT\<close> of one object inside the open transaction. Table
  \<^verbatim>\<open>weather_statistics\<close> has no constraint but the key \<^verbatim>\<open>id\<close>.
\<close>

fun insert_object :: "orm_object \<Rightarrow> engine \<Rightarrow> py_exception + engine" where
  "insert_object (WD r) e =
     (case date r of
        None \<Rightarrow> Inl (nat_exc e)
      | Some d \<Rightarrow>
          if station_date_uc (weather_data_tbl e) (station_id r) d then Inl IntegrityError
          else Inr (e\<lparr>weather_data_tbl := weather_data_tbl e @
                 [\<lparr>r_station_id = station_id r, r_date = d, r_max_temp = max_temp r,
                   r_min_temp = min_temp r, r_precipitation = precipitation r\<rparr>]\<rparr>))"
| "insert_object (WS w) e =
     Inr (e\<lparr>weather_statistics_tbl := weather_statistics_tbl e @ [w]\<rparr>)"

text \<open>
  The flush of the pending objects, in the order they were added, on the transaction's own
  view of the tables. It stops at the first statement that fails.
\<close>

fun flush :: "orm_object list \<Rightarrow> engine \<Rightarrow> py_exception option \<times> engine" where
  "flush [] e = (None, e)"
| "flush (x # xs) e =
     (case execute e of
        (False, e') \<Rightarrow> (Some OperationalError, e')
      | (True, e') \<Rightarrow>
          (case insert_object x e' of
             Inl exc \<Rightarrow> (Some exc, e')
           | Inr e'' \<Rightarrow> flush xs e''))"

definition session_add :: "session \<Rightarrow> orm_object \<Rightarrow> session" where
  "session_add s x = s\<lparr>new := new s @ [x]\<rparr>"

text \<open>
  \<^verbatim>\<open>session.commit()\<close>: flush, then \<^verbatim>\<open>COMMIT\<close>. When a statement fails the transaction's
  view is discarded: the tables are those of the last commit, the pending objects stay in
  the session until \<^verbatim>\<open>session.rollback()\<close>, and the exception is raised.
\<close>

definition session_commit :: "session \<Rightarrow> py_exception option \<times> session" where
  "session_commit s =
     (case flush (new s) (bind s) of
        (Some exc, w) \<Rightarrow> (Some exc, s\<lparr>bind := (bind s)\<lparr>outages := outages w\<rparr>\<rparr>)
      | (None, w) \<Rightarrow>
          (case execute w of
             (False, w') \<Rightarrow>
               (Some OperationalError, s\<lparr>bind := (bind s)\<lparr>outages := outages w'\<rparr>\<rparr>)
           | (True, w') \<Rightarrow> (None, \<lparr>bind = w', new = []\<rparr>)))"

definition session_rollback :: "session \<Rightarrow> session" where
  "session_rollback s = s\<lparr>new := []\<rparr>"

subsection \<open>ingest\_data\<close>

text \<open>
  The body of the loop over the rows of one file: build the object, add it, commit;
  \<^verbatim>\<open>except IntegrityError\<close> rolls back and counts a duplicate; any other exception leaves
  the loop and the function. The pair is (\<^verbatim>\<open>record_count\<close>, \<^verbatim>\<open>duplicate_count\<close>).
\<close>

definition load_record ::
  "weather_data \<Rightarrow> nat \<times> nat \<Rightarrow> session \<Rightarrow> (py_exception + nat \<times> nat) \<times> session" where
  "load_record r c s =
     (case session_commit (session_add s (WD r)) of
        (None, s') \<Rightarrow> (Inr (fst c + 1, snd c), s')
      | (Some exc, s') \<Rightarrow>
          if exc = IntegrityError then (Inr (fst c, snd c + 1), session_rollback s')
          else (Inl exc, s'))"

fun ingest_rows ::
  "weather_data list \<Rightarrow> nat \<times> nat \<Rightarrow> session \<Rightarrow> (py_exception + nat \<times> nat) \<times> session" where
  "ingest_rows [] c s = (Inr c, s)"
| "ingest_rows (r # rest) c s =
     (case load_record r c s of
        (Inl exc, s') \<Rightarrow> (Inl exc, s')
      | (Inr c', s') \<Rightarrow> ingest_rows rest c' s')"

text \<open>
  The body of the loop over the files: parse the file, then load its rows with both
  counters starting at 0. Nothing in it catches an exception.
\<close>

definition ingest_file :: "source_file \<Rightarrow> session \<Rightarrow> (py_exception + nat \<times> nat) \<times> session" where
  "ingest_file f s =
     (case parse_weather_data f of
        Inl exc \<Rightarrow> (Inl exc, s)
      | Inr data \<Rightarrow> ingest_rows data (0, 0) s)"

text \<open>
  What a run that returns has logged: the counters of each file, in the order of the
  files, and the two totals.
\<close>

record ingest_report =
  per_file :: "(string \<times> nat \<times> nat) list"
  total_record_count :: nat
  total_duplicate_count :: nat

definition add_file :: "ingest_report \<Rightarrow> source_file \<Rightarrow> nat \<times> nat \<Rightarrow> ingest_report" where
  "add_file rep f c =
     \<lparr>per_file = per_file rep @ [(basename (fst f), fst c, snd c)],
      total_record_count = total_record_count rep + fst c,
      total_duplicate_count = total_duplicate_count rep + snd c\<rparr>"

fun ingest_files ::
  "source_file list \<Rightarrow> ingest_report \<Rightarrow> session \<Rightarrow> (py_exception + ingest_report) \<times> session" where
  "ingest_files [] rep s = (Inr rep, s)"
| "ingest_files (f # fs) rep s =
     (case ingest_file f s of
        (Inl exc, s') \<Rightarrow> (Inl exc, s')
      | (Inr c, s') \<Rightarrow> ingest_files fs (add_file rep f c) s')"

definition empty_report :: ingest_report where
  "empty_report = \<lparr>per_file = [], total_record_count = 0, total_duplicate_count = 0\<rparr>"

definition ingest_data :: "source_file list \<Rightarrow> engine \<Rightarrow> (py_exception + ingest_report) \<times> engine" where
  "ingest_data files e =
     (case ingest_files files empty_report (get_session e) of
        (res, s) \<Rightarrow> (res, bind s))"

subsection \<open>calculate\_statistics\<close>

text \<open>
  The aggregates of SQL as PostgreSQL computes them for a float column: \<^verbatim>\<open>avg\<close> keeps a
  count and a total over the rows that are not \<^verbatim>\<open>NULL\<close>, \<^verbatim>\<open>sum\<close> starts from \<^verbatim>\<open>NULL\<close>.
\<close>

definition avg_step :: "nat \<times> real \<Rightarrow> real option \<Rightarrow> nat \<times> real" where
  "avg_step a v = (case v of None \<Rightarrow> a | Some x \<Rightarrow> (fst a + 1, snd a + x))"

definition func_avg :: "real option list \<Rightarrow> real option" where
  "func_avg vs =
     (case foldl avg_step (0, 0) vs of
        (n, t) \<Rightarrow> if n = 0 then None else Some (t / real n))"

definition sum_step :: "real option \<Rightarrow> real option \<Rightarrow> real option" where
  "sum_step a v =
     (case v of
        None \<Rightarrow> a
      | Some x \<Rightarrow> (case a of None \<Rightarrow> Some x | Some t \<Rightarrow> Some (t + x)))"

definition func_sum :: "real option list \<Rightarrow> real option" where
  "func_sum vs = foldl sum_step None vs"

text \<open>
  \<^verbatim>\<open>group_by(WeatherData.station_id, extract('year', WeatherData.date))\<close>. SQL fixes no
  order of the groups; the model lists them in the order \<open>remdups\<close> leaves.
\<close>

definition group_key :: "weather_data_row \<Rightarrow> string \<times> nat" where
  "group_key r = (r_station_id r, d_year (r_date r))"

definition group_keys :: "weather_data_row list \<Rightarrow> (string \<times> nat) list" where
  "group_keys tbl = remdups (map group_key tbl)"

definition group_rows :: "weather_data_row list \<Rightarrow> string \<times> nat \<Rightarrow> weather_data_row list" where
  "group_rows tbl k = filter (\<lambda>r. group_key r = k) tbl"

definition yearly_stat :: "weather_data_row list \<Rightarrow> string \<times> nat \<Rightarrow> weather_statistics" where
  "yearly_stat tbl k =
     \<lparr>ws_year = snd k, ws_station_id = fst k,
      avg_max_temp = func_avg (map r_max_temp (group_rows tbl k)),
      avg_min_temp = func_avg (map r_min_temp (group_rows tbl k)),
      total_precipitation = func_sum (map r_precipitation (group_rows tbl k))\<rparr>"

definition statistics_query :: "weather_data_row list \<Rightarrow> weather_statistics list" where
  "statistics_query tbl = map (yearly_stat tbl) (group_keys tbl)"

text \<open>
  \<^verbatim>\<open>calculate_statistics\<close>: the query, one \<^verbatim>\<open>session.add\<close> per result, one commit.
  \<^verbatim>\<open>except Exception\<close> rolls back and logs the error; the function returns either way,
  and the first component is the error it logged, if any.
\<close>

definition calculate_statistics :: "engine \<Rightarrow> py_exception option \<times> engine" where
  "calculate_statistics e =
     (let session = get_session e in
      case execute (bind session) of
        (False, e') \<Rightarrow>
          (Some OperationalError, bind (session_rollback (session\<lparr>bind := e'\<rparr>)))
      | (True, e') \<Rightarrow>
          (case session_commit
                  (foldl session_add (session\<lparr>bind := e'\<rparr>)
                     (map WS (statistics_query (weather_data_tbl e')))) of
             (None, s') \<Rightarrow> (None, bind s')
           | (Some exc, s') \<Rightarrow> (Some exc, bind (session_rollback s'))))"

subsection \<open>Notions the properties are stated with\<close>

text \<open>A line whose three numeric fields are integers, as the file format has them.\<close>

fun numeric :: "cell \<Rightarrow> bool" where
  "numeric (IntCell v) = True"
| "numeric (StrCell t) = False"

definition numeric_line :: "raw_line \<Rightarrow> bool" where
  "numeric_line l = (numeric (c_max_temp l) \<and> numeric (c_min_temp l) \<and> numeric (c_precipitation l))"

text \<open>The cleaned value of a raw integer, in the words of the specification.\<close>

definition cleaned :: "int \<Rightarrow> real option" where
  "cleaned v = (if v = - 9999 then None else Some (real_of_int v / 10))"

text \<open>
  The aggregates in the words of the specification: the values that are not null, their
  mean and their total, each null when there is no such value.
\<close>

fun non_null :: "real option list \<Rightarrow> real list" where
  "non_null [] = []"
| "non_null (None # vs) = non_null vs"
| "non_null (Some x # vs) = x # non_null vs"

definition mean_of :: "real list \<Rightarrow> real option" where
  "mean_of xs = (if xs = [] then None else Some (sum_list xs / real (length xs)))"

definition total_of :: "real list \<Rightarrow> real option" where
  "total_of xs = (if xs = [] then None else Some (sum_list xs))"

text \<open>The rows of one station and one year.\<close>

definition partition_of :: "weather_data_row list \<Rightarrow> string \<Rightarrow> nat \<Rightarrow> weather_data_row list" where
  "partition_of tbl sid y = filter (\<lambda>r. r_station_id r = sid \<and> d_year (r_date r) = y) tbl"

text \<open>
  An object the store refuses with \<open>IntegrityError\<close>: its key is taken, or it has no
  date and the store reports that as a violated constraint.
\<close>

definition refused :: "engine \<Rightarrow> weather_data \<Rightarrow> bool" where
  "refused e r =
     (case date r of
        None \<Rightarrow> nat_exc e = IntegrityError
      | Some d \<Rightarrow> station_date_uc (weather_data_tbl e) (station_id r) d)"

subsection \<open>Inputs the properties are tried on\<close>

text \<open>
  Lines of a file of station \<^verbatim>\<open>USC00111280\<close>: a day with a missing minimum, a cold day
  with missing precipitation, a line whose date is not a date, and a line with text in a
  numeric field.
\<close>

definition line_ok :: raw_line where
  "line_ok = \<lparr>c_date = ''20030101'', c_max_temp = IntCell 211,
     c_min_temp = IntCell (- 9999), c_precipitation = IntCell 5\<rparr>"

definition line_cold :: raw_line where
  "line_cold = \<lparr>c_date = ''20030102'', c_max_temp = IntCell (- 22),
     c_min_temp = IntCell (- 128), c_precipitation = IntCell (- 9999)\<rparr>"

definition line_nat :: raw_line where
  "line_nat = \<lparr>c_date = ''2003010x'', c_max_temp = IntCell 100,
     c_min_temp = IntCell 50, c_precipitation = IntCell 0\<rparr>"


text \<open>A store with no rows, the row of \<open>line_ok\<close>, and a store that holds just this row.\<close>

definition empty_store :: "py_exception \<Rightarrow> engine" where
  "empty_store exc =
     \<lparr>weather_data_tbl = [], weather_statistics_tbl = [], nat_exc = exc, outages = []\<rparr>"

definition row_ok :: weather_data_row where
  "row_ok = \<lparr>r_station_id = ''USC00111280'',
     r_date = \<lparr>d_year = 2003, d_month = 1, d_day = 1\<rparr>,
     r_max_temp = Some 21.1, r_min_temp = None, r_precipitation = Some 0.5\<rparr>"

definition store_ok :: "py_exception \<Rightarrow> engine" where
  "store_ok exc = (empty_store exc)\<lparr>weather_data_tbl := [row_ok]\<rparr>"




text \<open>
  A table of one station with three days of 2003, where one maximum is missing, one
  minimum is missing and no precipitation was measured, and one day of 2004; the rows
  the aggregation computes from it; the store that holds the table, with the outages it
  is going to meet.
\<close>

definition agg_rows :: "weather_data_row list" where
  "agg_rows =
     [\<lparr>r_station_id = ''USC00111280'', r_date = \<lparr>d_year = 2003, d_month = 1, d_day = 1\<rparr>,
        r_max_temp = Some 20, r_min_temp = Some 10, r_precipitation = None\<rparr>,
      \<lparr>r_station_id = ''USC00111280'', r_date = \<lparr>d_year = 2003, d_month = 1, d_day = 2\<rparr>,
        r_max_temp = None, r_min_temp = Some 12, r_precipitation = None\<rparr>,
      \<lparr>r_station_id = ''USC00111280'', r_date = \<lparr>d_year = 2003, d_month = 1, d_day = 3\<rparr>,
        r_max_temp = Some 30, r_min_temp = None, r_precipitation = None\<rparr>,
      \<lparr>r_station_id = ''USC00111280'', r_date = \<lparr>d_year = 2004, d_month = 1, d_day = 1\<rparr>,
        r_max_temp = Some 5, r_min_temp = None, r_precipitation = Some 1.5\<rparr>]"

definition agg_stats :: "weather_statistics list" where
  "agg_stats =
     [\<lparr>ws_year = 2003, ws_station_id = ''USC00111280'', avg_max_temp = Some 25,
        avg_min_temp = Some 11, total_precipitation = None\<rparr>,
      \<lparr>ws_year = 2004, ws_station_id = ''USC00111280'', avg_max_temp = Some 5,
        avg_min_temp = None, total_precipitation = Some 1.5\<rparr>]"

definition agg_store :: "bool list \<Rightarrow> engine" where
  "agg_store downs =
     \<lparr>weather_data_tbl = agg_rows, weather_statistics_tbl = [], nat_exc = IntegrityError,
      outages = downs\<rparr>"

section \<open>Properties\<close>

subsection \<open>The parser\<close>

lemma convert_column_length:
  "convert_column cs = Inr vs \<Longrightarrow> length vs = length cs"
proof (induction cs arbitrary: vs rule: convert_column.induct)
  case 1
  then show ?case by simp
next
  case (2 v cs)
  then show ?case by (auto split: sum.splits)
next
  case (3 t cs)
  then show ?case by simp
qed

lemma convert_column_nth:
  "convert_column cs = Inr vs \<Longrightarrow> i < length cs \<Longrightarrow>
     \<exists>v. cs ! i = IntCell v \<and> vs ! i = scale (replace_sentinel v)"
proof (induction cs arbitrary: vs i rule: convert_column.induct)
  case 1
  then show ?case by simp
next
  case (2 v cs)
  then show ?case by (cases i) (auto split: sum.splits)
next
  case (3 t cs)
  then show ?case by simp
qed

lemma convert_column_total:
  "list_all numeric cs \<Longrightarrow> \<exists>vs. convert_column cs = Inr vs"
proof (induction cs rule: convert_column.induct)
  case 1
  then show ?case by simp
next
  case (2 v cs)
  then show ?case by auto
next
  case (3 t cs)
  then show ?case by simp
qed

lemma convert_column_text:
  "\<not> list_all numeric cs \<Longrightarrow> convert_column cs = Inl TypeError"
  by (induction cs rule: convert_column.induct) (auto split: sum.splits)

lemma convert_column_raises:
  "convert_column cs = Inl e \<Longrightarrow> e = TypeError"
  by (induction cs arbitrary: e rule: convert_column.induct) (auto split: sum.splits)

lemma scale_replace_sentinel: "scale (replace_sentinel v) = cleaned v"
  by (simp add: scale_def replace_sentinel_def cleaned_def)

lemma numeric_columns:
  assumes "list_all numeric_line data"
  shows "list_all numeric (map c_max_temp data)"
    and "list_all numeric (map c_min_temp data)"
    and "list_all numeric (map c_precipitation data)"
  using assms by (simp_all add: list_all_iff numeric_line_def)

lemma parse_weather_data_total:
  assumes "list_all numeric_line data"
  shows "\<exists>rows. parse_weather_data (file_path, data) = Inr rows"
proof -
  from numeric_columns [OF assms] obtain maxs mins precs where
    "convert_column (map c_max_temp data) = Inr maxs"
    "convert_column (map c_min_temp data) = Inr mins"
    "convert_column (map c_precipitation data) = Inr precs"
    by (meson convert_column_total)
  then show ?thesis by (simp add: parse_weather_data_def)
qed

lemma parse_weather_data_rows:
  assumes "parse_weather_data (file_path, data) = Inr rows"
  shows "length rows = length data"
    and "i < length data \<Longrightarrow>
      \<exists>a b c. c_max_temp (data ! i) = IntCell a \<and> c_min_temp (data ! i) = IntCell b \<and>
        c_precipitation (data ! i) = IntCell c \<and>
        rows ! i = \<lparr>station_id = station_of file_path, date = to_datetime (c_date (data ! i)),
                    max_temp = cleaned a, min_temp = cleaned b, precipitation = cleaned c\<rparr>"
proof -
  from assms obtain maxs mins precs where
    mx: "convert_column (map c_max_temp data) = Inr maxs" and
    mn: "convert_column (map c_min_temp data) = Inr mins" and
    pr: "convert_column (map c_precipitation data) = Inr precs" and
    rows: "rows = map (make_row (station_of file_path)) (zip data (zip maxs (zip mins precs)))"
    by (auto simp: parse_weather_data_def split: sum.splits)
  have len: "length maxs = length data" "length mins = length data" "length precs = length data"
    using convert_column_length [OF mx] convert_column_length [OF mn]
      convert_column_length [OF pr] by simp_all
  show "length rows = length data" by (simp add: rows len)
  assume i: "i < length data"
  from convert_column_nth [OF mx, of i] i obtain a where
    a: "c_max_temp (data ! i) = IntCell a" "maxs ! i = cleaned a"
    by (auto simp: scale_replace_sentinel)
  from convert_column_nth [OF mn, of i] i obtain b where
    b: "c_min_temp (data ! i) = IntCell b" "mins ! i = cleaned b"
    by (auto simp: scale_replace_sentinel)
  from convert_column_nth [OF pr, of i] i obtain c where
    c: "c_precipitation (data ! i) = IntCell c" "precs ! i = cleaned c"
    by (auto simp: scale_replace_sentinel)
  have "rows ! i = make_row (station_of file_path) (data ! i, maxs ! i, mins ! i, precs ! i)"
    using i len by (simp add: rows)
  then show "\<exists>a b c. c_max_temp (data ! i) = IntCell a \<and> c_min_temp (data ! i) = IntCell b \<and>
        c_precipitation (data ! i) = IntCell c \<and>
        rows ! i = \<lparr>station_id = station_of file_path, date = to_datetime (c_date (data ! i)),
                    max_temp = cleaned a, min_temp = cleaned b, precipitation = cleaned c\<rparr>"
    using a b c by (simp add: make_row_def)
qed

lemma parse_weather_data_text:
  assumes "\<not> list_all numeric_line data"
  shows "parse_weather_data (file_path, data) = Inl TypeError"
proof -
  from assms have "\<not> list_all numeric (map c_max_temp data) \<or>
      \<not> list_all numeric (map c_min_temp data) \<or> \<not> list_all numeric (map c_precipitation data)"
    by (auto simp: list_all_iff numeric_line_def)
  then show ?thesis
    by (auto simp: parse_weather_data_def convert_column_text split: sum.splits
        dest: convert_column_raises)
qed



text \<open>
  C3. In a file whose numeric fields are integers, each of the three numeric fields of
  every line is cleaned on its own: the raw value \<open>-9999\<close> becomes null, any other raw
  value \<open>v\<close> becomes \<open>v / 10\<close>, sign included.
\<close>

theorem sentinel_and_unit_scaling:
  assumes "list_all numeric_line data" and "i < length data"
  shows "\<exists>rows a b c. parse_weather_data (file_path, data) = Inr rows \<and>
     c_max_temp (data ! i) = IntCell a \<and> c_min_temp (data ! i) = IntCell b \<and>
     c_precipitation (data ! i) = IntCell c \<and>
     max_temp (rows ! i) = (if a = - 9999 then None else Some (real_of_int a / 10)) \<and>
     min_temp (rows ! i) = (if b = - 9999 then None else Some (real_of_int b / 10)) \<and>
     precipitation (rows ! i) = (if c = - 9999 then None else Some (real_of_int c / 10))"
proof -
  from parse_weather_data_total [OF assms(1)] obtain rows where
    rows: "parse_weather_data (file_path, data) = Inr rows" by blast
  from parse_weather_data_rows(2) [OF rows assms(2)] obtain a b c where
    "c_max_temp (data ! i) = IntCell a" "c_min_temp (data ! i) = IntCell b"
    "c_precipitation (data ! i) = IntCell c"
    "rows ! i = \<lparr>station_id = station_of file_path, date = to_datetime (c_date (data ! i)),
        max_temp = cleaned a, min_temp = cleaned b, precipitation = cleaned c\<rparr>"
    by blast
  with rows show ?thesis by (auto simp: cleaned_def)
qed

theorem sentinel_and_unit_scaling_witness:
  "list_all numeric_line [line_ok, line_cold] \<and> (1::nat) < length [line_ok, line_cold] \<and>
   (\<exists>rows. parse_weather_data (''wx_data/USC00111280.txt'', [line_ok, line_cold]) = Inr rows \<and>
      max_temp (rows ! 0) = Some 21.1 \<and> min_temp (rows ! 0) = None \<and>
      precipitation (rows ! 0) = Some 0.5 \<and>
      max_temp (rows ! 1) = Some (- 2.2) \<and> min_temp (rows ! 1) = Some (- 12.8) \<and>
      precipitation (rows ! 1) = None)"
proof -
  have h: "list_all numeric_line [line_ok, line_cold]"
    by (simp add: numeric_line_def line_ok_def line_cold_def)
  have h0: "(0::nat) < length [line_ok, line_cold]" and h1: "(1::nat) < length [line_ok, line_cold]"
    by simp_all
  from sentinel_and_unit_scaling [OF h h0, of "''wx_data/USC00111280.txt''"]
  obtain rows a b c where r0:
    "parse_weather_data (''wx_data/USC00111280.txt'', [line_ok, line_cold]) = Inr rows"
    "c_max_temp ([line_ok, line_cold] ! 0) = IntCell a"
    "c_min_temp ([line_ok, line_cold] ! 0) = IntCell b"
    "c_precipitation ([line_ok, line_cold] ! 0) = IntCell c"
    "max_temp (rows ! 0) = (if a = - 9999 then None else Some (real_of_int a / 10))"
    "min_temp (rows ! 0) = (if b = - 9999 then None else Some (real_of_int b / 10))"
    "precipitation (rows ! 0) = (if c = - 9999 then None else Some (real_of_int c / 10))"
    by blast
  from sentinel_and_unit_scaling [OF h h1, of "''wx_data/USC00111280.txt''"]
  obtain rows' a' b' c' where r1:
    "parse_weather_data (''wx_data/USC00111280.txt'', [line_ok, line_cold]) = Inr rows'"
    "c_max_temp ([line_ok, line_cold] ! 1) = IntCell a'"
    "c_min_temp ([line_ok, line_cold] ! 1) = IntCell b'"
    "c_precipitation ([line_ok, line_cold] ! 1) = IntCell c'"
    "max_temp (rows' ! 1) = (if a' = - 9999 then None else Some (real_of_int a' / 10))"
    "min_temp (rows' ! 1) = (if b' = - 9999 then None else Some (real_of_int b' / 10))"
    "precipitation (rows' ! 1) = (if c' = - 9999 then None else Some (real_of_int c' / 10))"
    by blast
  from r0(1) r1(1) have same: "rows' = rows" by simp
  from r0(2-4) have "a = 211" "b = - 9999" "c = 5" by (simp_all add: line_ok_def)
  moreover from r1(2-4) have "a' = - 22" "b' = - 128" "c' = - 9999" by (simp_all add: line_cold_def)
  ultimately show ?thesis using h r0 r1 same by simp
qed



subsection \<open>The loader\<close>

lemma execute_up: "outages e = [] \<Longrightarrow> execute e = (True, e)"
  by (simp add: execute_def)

lemma execute_snd: "snd (execute e) = e\<lparr>outages := tl (outages e)\<rparr>"
  by (simp add: execute_def split: list.splits)

lemma execute_tables:
  assumes "execute e = (ok, e')"
  shows "weather_data_tbl e' = weather_data_tbl e"
    and "weather_statistics_tbl e' = weather_statistics_tbl e"
    and "nat_exc e' = nat_exc e"
  using assms execute_snd [of e] by (auto simp: )

lemma load_record_up:
  assumes "new s = []" and "outages (bind s) = []"
  shows "load_record r c s =
     (if refused (bind s) r then (Inr (fst c, snd c + 1), s)
      else case date r of
        None \<Rightarrow> (Inl (nat_exc (bind s)), s\<lparr>new := [WD r]\<rparr>)
      | Some d \<Rightarrow> (Inr (fst c + 1, snd c),
          s\<lparr>bind := (bind s)\<lparr>weather_data_tbl := weather_data_tbl (bind s) @
            [\<lparr>r_station_id = station_id r, r_date = d, r_max_temp = max_temp r,
              r_min_temp = min_temp r, r_precipitation = precipitation r\<rparr>]\<rparr>\<rparr>))"
  using assms
  by (cases s) (auto simp: load_record_def session_commit_def session_add_def session_rollback_def
      refused_def execute_def split: option.splits)

lemma load_record_counts:
  "load_record r c s = (Inr c', s') \<Longrightarrow> fst c' + snd c' = fst c + snd c + 1"
  by (auto simp: load_record_def split: prod.splits option.splits if_splits)

lemma ingest_rows_counts:
  "ingest_rows rows c s = (Inr c', s') \<Longrightarrow> fst c' + snd c' = fst c + snd c + length rows"
proof (induction rows arbitrary: c s)
  case Nil
  then show ?case by simp
next
  case (Cons r rows)
  from Cons.prems obtain c1 s1 where
    step: "load_record r c s = (Inr c1, s1)" and rest: "ingest_rows rows c1 s1 = (Inr c', s')"
    by (auto split: prod.splits sum.splits)
  from load_record_counts [OF step] Cons.IH [OF rest] show ?case by simp
qed

lemma refused_append:
  "refused e r \<Longrightarrow> refused (e\<lparr>weather_data_tbl := weather_data_tbl e @ [x]\<rparr>) r"
  by (auto simp: refused_def station_date_uc_def list_ex_iff split: option.splits)

lemma refused_inserted:
  "date r = Some d \<Longrightarrow>
   refused (e\<lparr>weather_data_tbl := weather_data_tbl e @
     [\<lparr>r_station_id = station_id r, r_date = d, r_max_temp = max_temp r,
       r_min_temp = min_temp r, r_precipitation = precipitation r\<rparr>]\<rparr>) r"
  by (simp add: refused_def station_date_uc_def)

lemma load_record_step:
  assumes "new s = []" and "outages (bind s) = []" and "load_record r c s = (Inr c', s')"
  shows "new s' = []" and "outages (bind s') = []" and "refused (bind s') r"
    and "refused (bind s) x \<Longrightarrow> refused (bind s') x"
proof -
  have *: "new s' = [] \<and> outages (bind s') = [] \<and> refused (bind s') r \<and>
      (refused (bind s) x \<longrightarrow> refused (bind s') x)"
  proof (cases "refused (bind s) r")
    case True
    with assms show ?thesis by (simp add: load_record_up)
  next
    case False
    with assms obtain d where d: "date r = Some d" and
      s': "s' = s\<lparr>bind := (bind s)\<lparr>weather_data_tbl := weather_data_tbl (bind s) @
            [\<lparr>r_station_id = station_id r, r_date = d, r_max_temp = max_temp r,
              r_min_temp = min_temp r, r_precipitation = precipitation r\<rparr>]\<rparr>\<rparr>"
      by (auto simp: load_record_up split: option.splits)
    show ?thesis
      using assms(1,2) refused_inserted [OF d] refused_append
      by (simp add: s')
  qed
  from * show "new s' = []" and "outages (bind s') = []" and "refused (bind s') r" by simp_all
  from * show "refused (bind s) x \<Longrightarrow> refused (bind s') x" by simp
qed

lemma ingest_rows_refused_after:
  assumes "ingest_rows rows c s = (Inr c', s')" and "new s = []" and "outages (bind s) = []"
  shows "new s' = [] \<and> outages (bind s') = [] \<and>
     (\<forall>x. refused (bind s) x \<longrightarrow> refused (bind s') x) \<and> (\<forall>r\<in>set rows. refused (bind s') r)"
  using assms
proof (induction rows arbitrary: c s)
  case Nil
  then show ?case by simp
next
  case (Cons r rows)
  from Cons.prems(1) obtain c1 s1 where
    step: "load_record r c s = (Inr c1, s1)" and rest: "ingest_rows rows c1 s1 = (Inr c', s')"
    by (auto split: prod.splits sum.splits)
  note st = load_record_step [OF Cons.prems(2,3) step]
  from Cons.IH [OF rest st(1,2)] have ih: "new s' = []" "outages (bind s') = []"
    "\<forall>x. refused (bind s1) x \<longrightarrow> refused (bind s') x" "\<forall>r\<in>set rows. refused (bind s') r"
    by simp_all
  from ih(3) st(3) have "refused (bind s') r" by simp
  moreover from ih(3) st(4) have "\<forall>x. refused (bind s) x \<longrightarrow> refused (bind s') x" by blast
  ultimately show ?case using ih by simp
qed

lemma ingest_rows_all_refused:
  assumes "\<forall>r\<in>set rows. refused (bind s) r" and "new s = []" and "outages (bind s) = []"
  shows "ingest_rows rows c s = (Inr (fst c, snd c + length rows), s)"
  using assms
proof (induction rows arbitrary: c)
  case Nil
  then show ?case by simp
next
  case (Cons r rows)
  then show ?case by (simp add: load_record_up)
qed

lemma ingest_data_single:
  "ingest_data [f] e =
     (case ingest_file f (get_session e) of
        (Inl exc, s') \<Rightarrow> (Inl exc, bind s')
      | (Inr c, s') \<Rightarrow>
          (Inr \<lparr>per_file = [(basename (fst f), fst c, snd c)], total_record_count = fst c,
                total_duplicate_count = snd c\<rparr>, bind s'))"
  by (simp add: ingest_data_def add_file_def empty_report_def split: prod.splits sum.splits)

text \<open>
  C1 (as amended). Ingesting a file a second time, after a run over it has returned and
  with no outage, adds no row to the store and changes none: the store after the second
  run is the store before it. The second run ingests nothing and its duplicate count is
  the first run's ingested count plus the first run's duplicate count.
\<close>

theorem reingestion_adds_nothing:
  assumes "outages e = []" and "ingest_data [f] e = (Inr rep, e')"
  shows "\<exists>record_count duplicate_count.
     per_file rep = [(basename (fst f), record_count, duplicate_count)] \<and>
     ingest_data [f] e' =
       (Inr \<lparr>per_file = [(basename (fst f), 0, record_count + duplicate_count)],
             total_record_count = 0,
             total_duplicate_count = record_count + duplicate_count\<rparr>, e')"
proof -
  from assms(2) obtain c s' where
    run: "ingest_file f (get_session e) = (Inr c, s')" and e': "e' = bind s'" and
    rep: "rep = \<lparr>per_file = [(basename (fst f), fst c, snd c)], total_record_count = fst c,
                total_duplicate_count = snd c\<rparr>"
    by (auto simp: ingest_data_single split: prod.splits sum.splits)
  from run obtain rows where rows: "parse_weather_data f = Inr rows" and
    load: "ingest_rows rows (0, 0) (get_session e) = (Inr c, s')"
    by (auto simp: ingest_file_def split: sum.splits)
  from ingest_rows_refused_after [OF load] assms(1) have after:
    "new s' = []" "outages (bind s') = []" "\<forall>r\<in>set rows. refused (bind s') r"
    by (simp_all add: get_session_def)
  from after(1) have s': "get_session (bind s') = s'" by (cases s') (simp add: get_session_def)
  from ingest_rows_counts [OF load] have n: "length rows = fst c + snd c" by simp
  have "ingest_rows rows (0, 0) s' = (Inr (0, length rows), s')"
    using ingest_rows_all_refused [OF after(3,1,2), of "(0, 0)"] by simp
  then have "ingest_file f (get_session e') = (Inr (0, fst c + snd c), s')"
    by (simp add: ingest_file_def rows e' s' n)
  then have "ingest_data [f] e' =
       (Inr \<lparr>per_file = [(basename (fst f), 0, fst c + snd c)], total_record_count = 0,
             total_duplicate_count = fst c + snd c\<rparr>, e')"
    by (simp add: ingest_data_single e')
  with rep show ?thesis by (cases c) simp
qed

theorem reingestion_adds_nothing_witness:
  "outages (empty_store IntegrityError) = [] \<and>
   ingest_data [(''wx_data/USC00111280.txt'', [line_ok])] (empty_store IntegrityError) =
     (Inr \<lparr>per_file = [(''USC00111280.txt'', 1, 0)], total_record_count = 1,
            total_duplicate_count = 0\<rparr>, store_ok IntegrityError) \<and>
   ingest_data [(''wx_data/USC00111280.txt'', [line_ok])] (store_ok IntegrityError) =
     (Inr \<lparr>per_file = [(''USC00111280.txt'', 0, 1)], total_record_count = 0,
            total_duplicate_count = 1\<rparr>, store_ok IntegrityError)"
proof -
  have up: "outages (empty_store IntegrityError) = []"
    by (simp add: empty_store_def)
  have first: "ingest_data [(''wx_data/USC00111280.txt'', [line_ok])] (empty_store IntegrityError) =
     (Inr \<lparr>per_file = [(''USC00111280.txt'', 1, 0)], total_record_count = 1,
            total_duplicate_count = 0\<rparr>, store_ok IntegrityError)"
    by code_simp
  from reingestion_adds_nothing [OF up first] up first show ?thesis
    by simp
qed

text \<open>
  The claim as the specification words it equates the second run's duplicate count with
  the first run's ingested count. A file that holds the same day twice: the first run
  ingests one record and meets one duplicate, the second meets two duplicates.
\<close>

theorem reingestion_duplicate_count_counterexample:
  "ingest_data [(''wx_data/USC00111280.txt'', [line_ok, line_ok])] (empty_store IntegrityError) =
     (Inr \<lparr>per_file = [(''USC00111280.txt'', 1, 1)], total_record_count = 1,
            total_duplicate_count = 1\<rparr>, store_ok IntegrityError) \<and>
   ingest_data [(''wx_data/USC00111280.txt'', [line_ok, line_ok])] (store_ok IntegrityError) =
     (Inr \<lparr>per_file = [(''USC00111280.txt'', 0, 2)], total_record_count = 0,
            total_duplicate_count = 2\<rparr>, store_ok IntegrityError)"
  by code_simp

lemma load_record_rows:
  assumes "new s = []" and "load_record r c s = (Inr c', s')"
  shows "new s' = []"
    and "length (weather_data_tbl (bind s')) + fst c = length (weather_data_tbl (bind s)) + fst c'"
  using assms
  by (auto simp: load_record_def session_commit_def session_add_def session_rollback_def
      execute_def split: prod.splits option.splits if_splits list.splits sum.splits bool.splits)

lemma ingest_rows_rows:
  assumes "ingest_rows rows c s = (Inr c', s')" and "new s = []"
  shows "new s' = [] \<and>
     length (weather_data_tbl (bind s')) + fst c = length (weather_data_tbl (bind s)) + fst c'"
  using assms
proof (induction rows arbitrary: c s)
  case Nil
  then show ?case by simp
next
  case (Cons r rows)
  from Cons.prems(1) obtain c1 s1 where
    step: "load_record r c s = (Inr c1, s1)" and rest: "ingest_rows rows c1 s1 = (Inr c', s')"
    by (auto split: prod.splits sum.splits)
  from load_record_rows [OF Cons.prems(2) step] Cons.IH [OF rest] show ?case by simp
qed

lemma ingest_file_counts:
  assumes "ingest_file f s = (Inr c, s')"
  shows "\<exists>rows. parse_weather_data f = Inr rows \<and> fst c + snd c = length rows"
proof -
  from assms obtain rows where rows: "parse_weather_data f = Inr rows" and
    load: "ingest_rows rows (0, 0) s = (Inr c, s')"
    by (auto simp: ingest_file_def split: sum.splits)
  from ingest_rows_counts [OF load] rows show ?thesis by simp
qed

lemma ingest_file_rows:
  assumes "ingest_file f s = (Inr c, s')" and "new s = []"
  shows "new s' = [] \<and>
     length (weather_data_tbl (bind s')) = length (weather_data_tbl (bind s)) + fst c"
proof -
  from assms obtain rows where "ingest_rows rows (0, 0) s = (Inr c, s')"
    by (auto simp: ingest_file_def split: sum.splits)
  from ingest_rows_rows [OF this assms(2)] show ?thesis by simp
qed

lemma ingest_files_report:
  assumes "ingest_files files rep s = (Inr rep', s')" and "new s = []"
  shows "\<exists>log. per_file rep' = per_file rep @ log \<and>
     map fst log = map (\<lambda>f. basename (fst f)) files \<and>
     (\<forall>i<length files. \<exists>rows. parse_weather_data (files ! i) = Inr rows \<and>
        fst (snd (log ! i)) + snd (snd (log ! i)) = length rows) \<and>
     total_record_count rep' = total_record_count rep + sum_list (map (\<lambda>x. fst (snd x)) log) \<and>
     total_duplicate_count rep' =
       total_duplicate_count rep + sum_list (map (\<lambda>x. snd (snd x)) log) \<and>
     length (weather_data_tbl (bind s')) =
       length (weather_data_tbl (bind s)) + sum_list (map (\<lambda>x. fst (snd x)) log)"
  using assms
proof (induction files arbitrary: rep s)
  case Nil
  then show ?case by simp
next
  case (Cons f files)
  from Cons.prems(1) obtain c s1 where
    one: "ingest_file f s = (Inr c, s1)" and
    rest: "ingest_files files (add_file rep f c) s1 = (Inr rep', s')"
    by (auto split: prod.splits sum.splits)
  note here = ingest_file_rows [OF one Cons.prems(2)]
  from here have new1: "new s1 = []" by simp
  from Cons.IH [OF rest new1] obtain log where log:
    "per_file rep' = per_file (add_file rep f c) @ log"
    "map fst log = map (\<lambda>f. basename (fst f)) files"
    "\<forall>i<length files. \<exists>rows. parse_weather_data (files ! i) = Inr rows \<and>
        fst (snd (log ! i)) + snd (snd (log ! i)) = length rows"
    "total_record_count rep' =
       total_record_count (add_file rep f c) + sum_list (map (\<lambda>x. fst (snd x)) log)"
    "total_duplicate_count rep' =
       total_duplicate_count (add_file rep f c) + sum_list (map (\<lambda>x. snd (snd x)) log)"
    "length (weather_data_tbl (bind s')) =
       length (weather_data_tbl (bind s1)) + sum_list (map (\<lambda>x. fst (snd x)) log)"
    by blast
  let ?log = "(basename (fst f), fst c, snd c) # log"
  have "per_file rep' = per_file rep @ ?log"
    using log(1) by (simp add: add_file_def)
  moreover have "map fst ?log = map (\<lambda>f. basename (fst f)) (f # files)"
    using log(2) by simp
  moreover have "\<forall>i<length (f # files). \<exists>rows. parse_weather_data ((f # files) ! i) = Inr rows \<and>
        fst (snd (?log ! i)) + snd (snd (?log ! i)) = length rows"
  proof (intro allI impI)
    fix i assume i: "i < length (f # files)"
    show "\<exists>rows. parse_weather_data ((f # files) ! i) = Inr rows \<and>
        fst (snd (?log ! i)) + snd (snd (?log ! i)) = length rows"
    proof (cases i)
      case 0
      with ingest_file_counts [OF one] show ?thesis by simp
    next
      case (Suc j)
      with i log(3) show ?thesis by simp
    qed
  qed
  moreover have "total_record_count rep' =
      total_record_count rep + sum_list (map (\<lambda>x. fst (snd x)) ?log)"
    using log(4) by (simp add: add_file_def)
  moreover have "total_duplicate_count rep' =
      total_duplicate_count rep + sum_list (map (\<lambda>x. snd (snd x)) ?log)"
    using log(5) by (simp add: add_file_def)
  moreover have "length (weather_data_tbl (bind s')) =
       length (weather_data_tbl (bind s)) + sum_list (map (\<lambda>x. fst (snd x)) ?log)"
    using log(6) here by simp
  ultimately show ?case by blast
qed

text \<open>
  C9. In a run that returns, the report has one entry per file, in the order of the files;
  for each file the ingested count plus the duplicate count is the number of records the
  parser returned for it; the two totals are the sums of the per-file counts; and the
  table has grown by exactly the total ingested count.
\<close>

theorem counter_conservation:
  assumes "ingest_data files e = (Inr rep, e')"
  shows "map fst (per_file rep) = map (\<lambda>f. basename (fst f)) files \<and>
     (\<forall>i<length files. \<exists>rows. parse_weather_data (files ! i) = Inr rows \<and>
        fst (snd (per_file rep ! i)) + snd (snd (per_file rep ! i)) = length rows) \<and>
     total_record_count rep = sum_list (map (\<lambda>x. fst (snd x)) (per_file rep)) \<and>
     total_duplicate_count rep = sum_list (map (\<lambda>x. snd (snd x)) (per_file rep)) \<and>
     length (weather_data_tbl e') = length (weather_data_tbl e) + total_record_count rep"
proof -
  from assms obtain s' where
    run: "ingest_files files empty_report (get_session e) = (Inr rep, s')" and e': "e' = bind s'"
    by (auto simp: ingest_data_def split: prod.splits)
  have "new (get_session e) = []" by (simp add: get_session_def)
  from ingest_files_report [OF run this] show ?thesis
    by (auto simp: empty_report_def get_session_def e')
qed

theorem counter_conservation_witness:
  "ingest_data [(''wx_data/USC00111280.txt'', [line_ok, line_nat, line_ok]),
      (''wx_data/USC00110072.txt'', [line_cold])] (empty_store IntegrityError) =
     (Inr \<lparr>per_file = [(''USC00111280.txt'', 1, 2), (''USC00110072.txt'', 1, 0)],
        total_record_count = 2, total_duplicate_count = 2\<rparr>,
      (empty_store IntegrityError)\<lparr>weather_data_tbl := [row_ok,
         \<lparr>r_station_id = ''USC00110072'', r_date = \<lparr>d_year = 2003, d_month = 1, d_day = 2\<rparr>,
           r_max_temp = Some (- 2.2), r_min_temp = Some (- 12.8), r_precipitation = None\<rparr>]\<rparr>) \<and>
   (\<exists>rows. parse_weather_data (''wx_data/USC00111280.txt'', [line_ok, line_nat, line_ok]) = Inr rows
      \<and> (1::nat) + 2 = length rows) \<and>
   (\<exists>rows. parse_weather_data (''wx_data/USC00110072.txt'', [line_cold]) = Inr rows
      \<and> (1::nat) + 0 = length rows)"
proof -
  let ?files = "[(''wx_data/USC00111280.txt'', [line_ok, line_nat, line_ok]),
      (''wx_data/USC00110072.txt'', [line_cold])]"
  have run: "ingest_data ?files (empty_store IntegrityError) =
     (Inr \<lparr>per_file = [(''USC00111280.txt'', 1, 2), (''USC00110072.txt'', 1, 0)],
        total_record_count = 2, total_duplicate_count = 2\<rparr>,
      (empty_store IntegrityError)\<lparr>weather_data_tbl := [row_ok,
         \<lparr>r_station_id = ''USC00110072'', r_date = \<lparr>d_year = 2003, d_month = 1, d_day = 2\<rparr>,
           r_max_temp = Some (- 2.2), r_min_temp = Some (- 12.8), r_precipitation = None\<rparr>]\<rparr>)"
    by code_simp
  from counter_conservation [OF run] have
    "\<forall>i<length ?files. \<exists>rows. parse_weather_data (?files ! i) = Inr rows \<and>
        fst (snd ([(''USC00111280.txt'', 1::nat, 2::nat), (''USC00110072.txt'', 1, 0)] ! i)) +
        snd (snd ([(''USC00111280.txt'', 1::nat, 2::nat), (''USC00110072.txt'', 1, 0)] ! i)) = length rows"
    by simp
  then have "(\<exists>rows. parse_weather_data (?files ! 0) = Inr rows \<and> (1::nat) + 2 = length rows) \<and>
     (\<exists>rows. parse_weather_data (?files ! 1) = Inr rows \<and> (1::nat) + 0 = length rows)"
    by (metis (no_types, lifting) One_nat_def fst_conv length_Cons lessI list.size(3) nth_Cons_0
        nth_Cons_Suc snd_conv zero_less_Suc)
  with run show ?thesis by simp
qed




















subsection \<open>The aggregation\<close>

lemma foldl_avg_step:
  "foldl avg_step a vs = (fst a + length (non_null vs), snd a + sum_list (non_null vs))"
  by (induction vs arbitrary: a rule: non_null.induct) (simp_all add: avg_step_def)

lemma func_avg_mean: "func_avg vs = mean_of (non_null vs)"
  by (simp add: func_avg_def foldl_avg_step mean_of_def)

lemma sum_step_simps:
  "sum_step a None = a"
  "sum_step None (Some x) = Some x"
  "sum_step (Some t) (Some x) = Some (t + x)"
  by (simp_all add: sum_step_def)

lemma foldl_sum_step_Some:
  "foldl sum_step (Some t) vs = Some (t + sum_list (non_null vs))"
  by (induction vs arbitrary: t rule: non_null.induct) (simp_all add: sum_step_simps)

lemma foldl_sum_step_None: "foldl sum_step None vs = total_of (non_null vs)"
  by (induction vs rule: non_null.induct)
    (simp_all add: sum_step_simps total_of_def foldl_sum_step_Some)

lemma func_sum_total: "func_sum vs = total_of (non_null vs)"
  by (simp add: func_sum_def foldl_sum_step_None)

lemma non_null_empty: "non_null vs = [] \<longleftrightarrow> (\<forall>v\<in>set vs. v = None)"
  by (induction vs rule: non_null.induct) simp_all

lemma group_rows_partition:
  "group_rows tbl k = partition_of tbl (fst k) (snd k)"
  by (cases k) (auto simp: group_rows_def partition_of_def group_key_def intro: filter_cong)

lemma statistics_query_keys:
  "map (\<lambda>w. (ws_station_id w, ws_year w)) (statistics_query tbl) = group_keys tbl"
  by (simp add: statistics_query_def yearly_stat_def comp_def)

lemma group_keys_partition:
  "k \<in> set (group_keys tbl) \<Longrightarrow> partition_of tbl (fst k) (snd k) \<noteq> []"
  by (cases k) (auto simp: group_keys_def partition_of_def group_key_def filter_empty_conv)

text \<open>
  C4. The query returns one row per partition (station, year) of the table. In the row of
  a partition, each average is the mean of the values of the partition that are not null,
  and the total precipitation is the sum of those that are not null; each of the three is
  null exactly when every value of the partition is null.
\<close>

theorem null_safe_aggregates:
  "map (\<lambda>w. (ws_station_id w, ws_year w)) (statistics_query tbl) =
     remdups (map (\<lambda>r. (r_station_id r, d_year (r_date r))) tbl) \<and>
   (\<forall>w\<in>set (statistics_query tbl).
      partition_of tbl (ws_station_id w) (ws_year w) \<noteq> [] \<and>
      avg_max_temp w =
        mean_of (non_null (map r_max_temp (partition_of tbl (ws_station_id w) (ws_year w)))) \<and>
      avg_min_temp w =
        mean_of (non_null (map r_min_temp (partition_of tbl (ws_station_id w) (ws_year w)))) \<and>
      total_precipitation w =
        total_of (non_null (map r_precipitation
          (partition_of tbl (ws_station_id w) (ws_year w)))) \<and>
      (avg_max_temp w = None \<longleftrightarrow>
         (\<forall>r\<in>set (partition_of tbl (ws_station_id w) (ws_year w)). r_max_temp r = None)) \<and>
      (avg_min_temp w = None \<longleftrightarrow>
         (\<forall>r\<in>set (partition_of tbl (ws_station_id w) (ws_year w)). r_min_temp r = None)) \<and>
      (total_precipitation w = None \<longleftrightarrow>
         (\<forall>r\<in>set (partition_of tbl (ws_station_id w) (ws_year w)). r_precipitation r = None)))"
proof (intro conjI ballI)
  show "map (\<lambda>w. (ws_station_id w, ws_year w)) (statistics_query tbl) =
     remdups (map (\<lambda>r. (r_station_id r, d_year (r_date r))) tbl)"
    by (simp add: statistics_query_keys group_keys_def group_key_def [abs_def])
next
  fix w assume "w \<in> set (statistics_query tbl)"
  then obtain k where k: "k \<in> set (group_keys tbl)" and w: "w = yearly_stat tbl k"
    by (auto simp: statistics_query_def)
  let ?p = "partition_of tbl (ws_station_id w) (ws_year w)"
  have p: "group_rows tbl k = ?p"
    by (simp add: w yearly_stat_def group_rows_partition)
  show "?p \<noteq> []"
    using group_keys_partition [OF k] by (simp add: w yearly_stat_def)
  show mx: "avg_max_temp w = mean_of (non_null (map r_max_temp ?p))"
    using p by (simp add: w yearly_stat_def func_avg_mean)
  show mn: "avg_min_temp w = mean_of (non_null (map r_min_temp ?p))"
    using p by (simp add: w yearly_stat_def func_avg_mean)
  show pr: "total_precipitation w = total_of (non_null (map r_precipitation ?p))"
    using p by (simp add: w yearly_stat_def func_sum_total)
  show "avg_max_temp w = None \<longleftrightarrow> (\<forall>r\<in>set ?p. r_max_temp r = None)"
    unfolding mx by (simp add: mean_of_def non_null_empty)
  show "avg_min_temp w = None \<longleftrightarrow> (\<forall>r\<in>set ?p. r_min_temp r = None)"
    unfolding mn by (simp add: mean_of_def non_null_empty)
  show "total_precipitation w = None \<longleftrightarrow> (\<forall>r\<in>set ?p. r_precipitation r = None)"
    unfolding pr by (simp add: total_of_def non_null_empty)
qed

lemma agg_query: "statistics_query agg_rows = agg_stats"
  by code_simp

theorem null_safe_aggregates_witness:
  "statistics_query agg_rows = agg_stats \<and>
   map r_max_temp (partition_of agg_rows ''USC00111280'' 2003) = [Some 20, None, Some 30] \<and>
   avg_max_temp (agg_stats ! 0) = Some 25 \<and>
   map r_precipitation (partition_of agg_rows ''USC00111280'' 2003) = [None, None, None] \<and>
   total_precipitation (agg_stats ! 0) = None"
proof -
  have w: "agg_stats ! 0 \<in> set (statistics_query agg_rows)"
    by (simp add: agg_query) (simp add: agg_stats_def)
  have k: "ws_station_id (agg_stats ! 0) = ''USC00111280''" "ws_year (agg_stats ! 0) = 2003"
    by (simp_all add: agg_stats_def)
  have mx: "map r_max_temp (partition_of agg_rows ''USC00111280'' 2003) = [Some 20, None, Some 30]"
    by code_simp
  have pr: "map r_precipitation (partition_of agg_rows ''USC00111280'' 2003) = [None, None, None]"
    by code_simp
  from null_safe_aggregates [of agg_rows] w have
    "avg_max_temp (agg_stats ! 0) = mean_of (non_null (map r_max_temp
        (partition_of agg_rows (ws_station_id (agg_stats ! 0)) (ws_year (agg_stats ! 0)))))"
    "total_precipitation (agg_stats ! 0) = total_of (non_null (map r_precipitation
        (partition_of agg_rows (ws_station_id (agg_stats ! 0)) (ws_year (agg_stats ! 0)))))"
    by blast+
  then have "avg_max_temp (agg_stats ! 0) = Some 25" "total_precipitation (agg_stats ! 0) = None"
    by (simp_all add: k mx pr mean_of_def total_of_def)
  with mx pr agg_query show ?thesis by simp
qed

lemma foldl_session_add: "foldl session_add s xs = s\<lparr>new := new s @ xs\<rparr>"
  by (induction xs arbitrary: s) (simp_all add: session_add_def)

lemma flush_statistics:
  "flush (map WS ws) e = (res, e') \<Longrightarrow>
     weather_data_tbl e' = weather_data_tbl e \<and> nat_exc e' = nat_exc e \<and>
     (res = None \<longrightarrow> weather_statistics_tbl e' = weather_statistics_tbl e @ ws)"
proof (induction ws arbitrary: e)
  case Nil
  then show ?case by simp
next
  case (Cons w ws)
  obtain ok e1 where x: "execute e = (ok, e1)" by (cases "execute e")
  note t = execute_tables [OF x]
  show ?case
  proof (cases ok)
    case False
    with Cons.prems x t show ?thesis by auto
  next
    case True
    with Cons.prems x have
      "flush (map WS ws) (e1\<lparr>weather_statistics_tbl := weather_statistics_tbl e1 @ [w]\<rparr>) = (res, e')"
      by simp
    from Cons.IH [OF this] t show ?thesis by simp
  qed
qed

lemma flush_statistics_up:
  "outages e = [] \<Longrightarrow>
   flush (map WS ws) e = (None, e\<lparr>weather_statistics_tbl := weather_statistics_tbl e @ ws\<rparr>)"
  by (induction ws arbitrary: e) (simp_all add: execute_up)

lemma calculate_statistics_up:
  assumes "outages e = []"
  shows "calculate_statistics e =
    (None, e\<lparr>weather_statistics_tbl :=
       weather_statistics_tbl e @ statistics_query (weather_data_tbl e)\<rparr>)"
  using assms
  by (simp add: calculate_statistics_def get_session_def execute_up foldl_session_add
      session_commit_def flush_statistics_up)

lemma calculate_statistics_tables:
  assumes "calculate_statistics e = (logged, e')"
  shows "weather_data_tbl e' = weather_data_tbl e"
    and "logged \<noteq> None \<Longrightarrow> weather_statistics_tbl e' = weather_statistics_tbl e"
    and "logged = None \<Longrightarrow>
      weather_statistics_tbl e' = weather_statistics_tbl e @ statistics_query (weather_data_tbl e)"
proof -
  obtain ok e1 where x: "execute e = (ok, e1)" by (cases "execute e")
  note t = execute_tables [OF x]
  let ?q = "statistics_query (weather_data_tbl e1)"
  obtain res w where f: "flush (map WS ?q) e1 = (res, w)" by (cases "flush (map WS ?q) e1")
  note fl = flush_statistics [OF f]
  obtain ok2 w2 where x2: "execute w = (ok2, w2)" by (cases "execute w")
  note t2 = execute_tables [OF x2]
  have all: "weather_data_tbl e' = weather_data_tbl e \<and>
     (logged \<noteq> None \<longrightarrow> weather_statistics_tbl e' = weather_statistics_tbl e) \<and>
     (logged = None \<longrightarrow>
        weather_statistics_tbl e' = weather_statistics_tbl e @ statistics_query (weather_data_tbl e))"
  proof (cases ok)
    case False
    with assms x t show ?thesis
      by (auto simp: calculate_statistics_def get_session_def session_rollback_def)
  next
    case True
    show ?thesis
    proof (cases res)
      case (Some exc)
      with assms x True f t show ?thesis
        by (auto simp: calculate_statistics_def get_session_def session_rollback_def
            foldl_session_add session_commit_def)
    next
      case None
      with assms x True f x2 t fl t2 show ?thesis
        by (cases ok2) (auto simp: calculate_statistics_def get_session_def session_rollback_def
            foldl_session_add session_commit_def)
    qed
  qed
  from all show "weather_data_tbl e' = weather_data_tbl e" by simp
  from all show "logged \<noteq> None \<Longrightarrow> weather_statistics_tbl e' = weather_statistics_tbl e" by simp
  from all show "logged = None \<Longrightarrow>
      weather_statistics_tbl e' = weather_statistics_tbl e @ statistics_query (weather_data_tbl e)"
    by simp
qed

text \<open>
  C6. When an aggregation run fails, at the query or at any statement of the write, the
  table of statistics is as it was before the run: no row of the run is committed. The
  table of observations is as it was, too.
\<close>

theorem aggregation_all_or_nothing:
  assumes "calculate_statistics e = (Some exc, e')"
  shows "weather_statistics_tbl e' = weather_statistics_tbl e \<and>
     weather_data_tbl e' = weather_data_tbl e"
  using calculate_statistics_tables(1,2) [OF assms] by simp

theorem aggregation_all_or_nothing_witness:
  "calculate_statistics (agg_store [False, False, True]) =
     (Some OperationalError, agg_store []) \<and>
   weather_statistics_tbl (agg_store []) = weather_statistics_tbl (agg_store [False, False, True]) \<and>
   weather_data_tbl (agg_store []) = weather_data_tbl (agg_store [False, False, True]) \<and>
   calculate_statistics (agg_store []) = (None, (agg_store [])\<lparr>weather_statistics_tbl := agg_stats\<rparr>)"
proof -
  have run: "calculate_statistics (agg_store [False, False, True]) =
     (Some OperationalError, agg_store [])"
    by code_simp
  have ok: "calculate_statistics (agg_store []) =
     (None, (agg_store [])\<lparr>weather_statistics_tbl := agg_stats\<rparr>)"
    by code_simp
  from aggregation_all_or_nothing [OF run] run ok show ?thesis by simp
qed

text \<open>
  C7. With no outage, two aggregation runs in a row over the same observations both
  succeed; each appends the rows of the query, one per partition (station, year), to the
  table of statistics, so that after the second run every partition has its row twice.
  Nothing is replaced and nothing refused.
\<close>

theorem rerun_duplicates_statistics:
  assumes "outages e = []"
  shows "\<exists>e1 e2. calculate_statistics e = (None, e1) \<and> calculate_statistics e1 = (None, e2) \<and>
     weather_data_tbl e2 = weather_data_tbl e \<and>
     weather_statistics_tbl e1 =
       weather_statistics_tbl e @ statistics_query (weather_data_tbl e) \<and>
     weather_statistics_tbl e2 =
       weather_statistics_tbl e @ statistics_query (weather_data_tbl e) @
         statistics_query (weather_data_tbl e) \<and>
     map (\<lambda>w. (ws_station_id w, ws_year w)) (statistics_query (weather_data_tbl e)) =
       remdups (map (\<lambda>r. (r_station_id r, d_year (r_date r))) (weather_data_tbl e))"
proof -
  let ?q = "statistics_query (weather_data_tbl e)"
  let ?e1 = "e\<lparr>weather_statistics_tbl := weather_statistics_tbl e @ ?q\<rparr>"
  let ?e2 = "?e1\<lparr>weather_statistics_tbl := weather_statistics_tbl ?e1 @ ?q\<rparr>"
  have one: "calculate_statistics e = (None, ?e1)"
    by (rule calculate_statistics_up [OF assms])
  have "outages ?e1 = []" using assms by simp
  from calculate_statistics_up [OF this] have two: "calculate_statistics ?e1 = (None, ?e2)"
    by simp
  have keys: "map (\<lambda>w. (ws_station_id w, ws_year w)) ?q =
       remdups (map (\<lambda>r. (r_station_id r, d_year (r_date r))) (weather_data_tbl e))"
    by (simp add: statistics_query_keys group_keys_def group_key_def [abs_def])
  from one two keys show ?thesis by (intro exI [of _ ?e1] exI [of _ ?e2]) simp
qed

theorem rerun_duplicates_statistics_witness:
  "outages (agg_store []) = [] \<and>
   calculate_statistics (agg_store []) =
     (None, (agg_store [])\<lparr>weather_statistics_tbl := agg_stats\<rparr>) \<and>
   calculate_statistics ((agg_store [])\<lparr>weather_statistics_tbl := agg_stats\<rparr>) =
     (None, (agg_store [])\<lparr>weather_statistics_tbl := agg_stats @ agg_stats\<rparr>)"
proof -
  have up: "outages (agg_store []) = []" by (simp add: agg_store_def)
  from rerun_duplicates_statistics [OF up] obtain e1 e2 where r:
    "calculate_statistics (agg_store []) = (None, e1)" "calculate_statistics e1 = (None, e2)"
    "weather_statistics_tbl e1 =
       weather_statistics_tbl (agg_store []) @ statistics_query (weather_data_tbl (agg_store []))"
    by blast
  have one: "calculate_statistics (agg_store []) =
     (None, (agg_store [])\<lparr>weather_statistics_tbl := agg_stats\<rparr>)"
    by code_simp
  have two: "calculate_statistics ((agg_store [])\<lparr>weather_statistics_tbl := agg_stats\<rparr>) =
     (None, (agg_store [])\<lparr>weather_statistics_tbl := agg_stats @ agg_stats\<rparr>)"
    by code_simp
  from r up one two show ?thesis by simp
qed

end
